theory Spec2Isabelle
  imports Complex_Main "HOL-Library.AList"
begin

section \<open>Depth coverage tracks: parsing, windowing, region classification, layout\<close>

text \<open>
  A shallow embedding of \<^verbatim>\<open>static/depth_plotter.py\<close> and of the layout part of
  \<^verbatim>\<open>static/integrated_montage.py\<close>.

  Conventions of the embedding.
  \<^item> A text file is the list of its lines; the characters are ASCII.
  \<^item> \<^verbatim>\<open>array('H')\<close> holds unsigned 16-bit codes, so a depth value is a \<open>nat\<close>; the
    range check of \<^verbatim>\<open>append\<close> is written out in \<open>array_H_append\<close>. The reader hands
    the same values on as \<^verbatim>\<open>int32\<close> arrays, so every depth array is a \<open>nat list\<close>.
  \<^item> Python \<^verbatim>\<open>int\<close> (indices, window size, threshold) is \<open>int\<close>.
  \<^item> Python \<^verbatim>\<open>float\<close> (means, pixel coordinates, ratios) is \<open>real\<close>: rounding of
    binary floating point is not part of the embedding.
  \<^item> A \<^verbatim>\<open>dict\<close> is an association list kept in insertion order
    (\<open>AList.update\<close> overwrites in place and appends a new key at the end).
  \<^item> An exception is a value \<open>Inl e\<close> of a sum type.
  \<^item> \<^verbatim>\<open>print\<close> calls are observational and are left out, except where an
    effect trace is the subject (\<open>plot_single_sequence\<close>).
\<close>

subsection \<open>Exceptions\<close>

datatype py_error =
    ValueError
  | OverflowError
  | ZeroDivisionError
  | TypeError
  | OSError
  | RuntimeError
  | LengthMismatch string nat nat
    \<comment> \<open>the \<^verbatim>\<open>ValueError\<close> of \<^verbatim>\<open>plot_single_sequence\<close>; its message carries the
        sequence ID, the HiFi length and the ONT length\<close>

subsection \<open>Strings: \<^verbatim>\<open>str.strip\<close>, \<^verbatim>\<open>str.startswith\<close>, \<^verbatim>\<open>int(str)\<close>\<close>

definition is_space :: "char \<Rightarrow> bool" where
  "is_space c = (let k = (of_char c :: nat) in (9 \<le> k \<and> k \<le> 13) \<or> (28 \<le> k \<and> k \<le> 32))"

definition py_strip :: "string \<Rightarrow> string" where
  "py_strip s = rev (dropWhile is_space (rev (dropWhile is_space s)))"

definition startswith_gt :: "string \<Rightarrow> bool" where
  "startswith_gt s = (case s of [] \<Rightarrow> False | c # _ \<Rightarrow> c = CHR ''>'')"

definition is_digit :: "char \<Rightarrow> bool" where
  "is_digit c = (let k = (of_char c :: nat) in 48 \<le> k \<and> k \<le> 57)"

definition digit_val :: "char \<Rightarrow> int" where
  "digit_val c = int (of_char c) - 48"

text \<open>
  The digit part of a decimal literal as \<^verbatim>\<open>int()\<close> reads it: at least one digit, and
  single underscores allowed between digits only. The flag says whether the previous
  character was a digit.
\<close>

fun py_digits :: "string \<Rightarrow> bool \<Rightarrow> int \<Rightarrow> py_error + int" where
  "py_digits [] prev acc = (if prev then Inr acc else Inl ValueError)"
| "py_digits (c # cs) prev acc =
     (if is_digit c then py_digits cs True (10 * acc + digit_val c)
      else if c = CHR ''_'' \<and> prev then py_digits cs False acc
      else Inl ValueError)"

definition py_int :: "string \<Rightarrow> py_error + int" where
  "py_int s =
     (case py_strip s of
        [] \<Rightarrow> Inl ValueError
      | c # cs \<Rightarrow>
          if c = CHR ''-'' then (case py_digits cs False 0 of Inl e \<Rightarrow> Inl e | Inr v \<Rightarrow> Inr (- v))
          else if c = CHR ''+'' then py_digits cs False 0
          else py_digits (c # cs) False 0)"

subsection \<open>\<^verbatim>\<open>DepthParser\<close>\<close>

text \<open>A depth file: either it cannot be opened, or it is read line by line.\<close>

datatype depth_source = Unreadable | Lines "string list"

record DepthParser =
  depth_file :: depth_source
  sequences :: "(string \<times> nat list) list"
  mean_depths :: "(string \<times> real) list"

definition DepthParser_init :: "depth_source \<Rightarrow> DepthParser" where
  "DepthParser_init f = \<lparr>depth_file = f, sequences = [], mean_depths = []\<rparr>"

text \<open>\<^verbatim>\<open>array('H').append\<close>: a value outside 0..65535 raises \<^verbatim>\<open>OverflowError\<close>.\<close>

definition array_H_append :: "nat list \<Rightarrow> int \<Rightarrow> py_error + nat list" where
  "array_H_append arr v = (if 0 \<le> v \<and> v \<le> 65535 then Inr (arr @ [nat v]) else Inl OverflowError)"

text \<open>The local variables of \<^verbatim>\<open>parse_depth_file_filtered\<close>, with \<^verbatim>\<open>self.sequences\<close>.\<close>

record parse_state =
  current_seq :: "string option"
  current_depth_array :: "nat list option"
  include_current :: bool
  seqs :: "(string \<times> nat list) list"
  processed_count :: nat
  skipped_count :: nat

text \<open>
  The commit of the finished sequence, as written before a new header and once more
  after the loop. \<^verbatim>\<open>if current_seq\<close> is false for \<^verbatim>\<open>None\<close> and for the empty string.
\<close>

definition commit_current :: "parse_state \<Rightarrow> parse_state" where
  "commit_current st =
     (case current_seq st of
        None \<Rightarrow> st
      | Some sid \<Rightarrow>
          if sid = [] then st
          else (case current_depth_array st of
                  Some arr \<Rightarrow>
                    if include_current st
                    then st\<lparr>seqs := AList.update sid arr (seqs st),
                            processed_count := processed_count st + 1\<rparr>
                    else st\<lparr>skipped_count := skipped_count st + 1\<rparr>
                | None \<Rightarrow>
                    if \<not> include_current st
                    then st\<lparr>skipped_count := skipped_count st + 1\<rparr>
                    else st))"

text \<open>One iteration of \<^verbatim>\<open>for line in f\<close>. Only \<^verbatim>\<open>ValueError\<close> is caught.\<close>

definition process_line :: "string set \<Rightarrow> parse_state \<Rightarrow> string \<Rightarrow> py_error + parse_state" where
  "process_line target_sequences st raw =
     (let line = py_strip raw in
      if startswith_gt line then
        (let st1 = commit_current st;
             sid = drop 1 line;
             inc = (sid \<in> target_sequences)
         in Inr (st1\<lparr>current_seq := Some sid,
                      include_current := inc,
                      current_depth_array := (if inc then Some [] else None)\<rparr>))
      else
        (case current_depth_array st of
           Some arr \<Rightarrow>
             if include_current st then
               (case py_int line of
                  Inl ValueError \<Rightarrow> Inr st
                | Inl e \<Rightarrow> Inl e
                | Inr depth \<Rightarrow>
                    if 0 \<le> depth \<and> depth \<le> 65535 then
                      (case array_H_append arr depth of
                         Inl e \<Rightarrow> Inl e
                       | Inr arr' \<Rightarrow> Inr (st\<lparr>current_depth_array := Some arr'\<rparr>))
                    else if depth > 65535 then
                      (case array_H_append arr 65535 of
                         Inl e \<Rightarrow> Inl e
                       | Inr arr' \<Rightarrow> Inr (st\<lparr>current_depth_array := Some arr'\<rparr>))
                    else Inr st)
             else Inr st
         | None \<Rightarrow> Inr st))"

fun process_lines :: "string set \<Rightarrow> parse_state \<Rightarrow> string list \<Rightarrow> py_error + parse_state" where
  "process_lines target_sequences st [] = Inr st"
| "process_lines target_sequences st (l # ls) =
     (case process_line target_sequences st l of
        Inl e \<Rightarrow> Inl e
      | Inr st' \<Rightarrow> process_lines target_sequences st' ls)"

definition mean :: "nat list \<Rightarrow> real" where
  "mean xs = real (sum_list xs) / real (length xs)"

definition parse_depth_file_filtered :: "DepthParser \<Rightarrow> string set \<Rightarrow> py_error + DepthParser" where
  "parse_depth_file_filtered self target_sequences =
     (case depth_file self of
        Unreadable \<Rightarrow> Inl OSError
      | Lines ls \<Rightarrow>
          (case process_lines target_sequences
                  \<lparr>current_seq = None, current_depth_array = None, include_current = False,
                   seqs = sequences self, processed_count = 0, skipped_count = 0\<rparr> ls of
             Inl e \<Rightarrow> Inl e
           | Inr st \<Rightarrow>
               (let st' = commit_current st
                in Inr (self\<lparr>sequences := seqs st',
                             mean_depths :=
                               fold (\<lambda>(seq_id, arr).
                                       AList.update seq_id (if length arr > 0 then mean arr else 0))
                                    (seqs st') (mean_depths self)\<rparr>))))"

text \<open>The sequence IDs that occur in a source: the header lines, without the \<^verbatim>\<open>>\<close>.\<close>

definition header_ids :: "string list \<Rightarrow> string set" where
  "header_ids ls = {drop 1 (py_strip l) | l. l \<in> set ls \<and> startswith_gt (py_strip l)}"

subsection \<open>\<^verbatim>\<open>SynchronizedDepthReader\<close>\<close>

text \<open>
  A Python \<^verbatim>\<open>set\<close> of IDs is a duplicate-free list in the order in which the set is
  iterated. For the union of the two key sets the order taken is: keys of the HiFi map,
  then the new keys of the ONT map.
\<close>

record SynchronizedDepthReader =
  hifi_file :: "depth_source option"
  ont_file :: "depth_source option"
  target_sequences :: "string list"
  regions :: "(string \<times> (int \<times> int) list) list option"

definition should_process_sequence :: "SynchronizedDepthReader \<Rightarrow> string \<Rightarrow> bool" where
  "should_process_sequence self seq_id =
     (if target_sequences self \<noteq> [] \<and> seq_id \<notin> set (target_sequences self) then False
      else (case regions self of
              None \<Rightarrow> True
            | Some r \<Rightarrow> if r \<noteq> [] \<and> seq_id \<notin> fst ` set r then False else True))"

text \<open>A parse failure is caught and leaves the map of that source empty.\<close>

definition parse_source :: "depth_source option \<Rightarrow> string list \<Rightarrow> (string \<times> nat list) list" where
  "parse_source file targets =
     (case file of
        None \<Rightarrow> []
      | Some f \<Rightarrow>
          (case (if targets \<noteq> [] then parse_depth_file_filtered (DepthParser_init f) (set targets)
                 else parse_depth_file_filtered (DepthParser_init f) {}) of
             Inl e \<Rightarrow> []
           | Inr p \<Rightarrow> sequences p))"

definition lookup_array :: "(string \<times> nat list) list \<Rightarrow> string \<Rightarrow> nat list" where
  "lookup_array m seq_id = (case map_of m seq_id of Some arr \<Rightarrow> arr | None \<Rightarrow> [])"

definition read_sequences :: "SynchronizedDepthReader \<Rightarrow> (string \<times> nat list \<times> nat list) list" where
  "read_sequences self =
     (let targets = target_sequences self;
          hifi_map = parse_source (hifi_file self) targets;
          ont_map = parse_source (ont_file self) targets;
          seq_ids = (if targets \<noteq> [] then targets
                     else remdups (map fst hifi_map @ map fst ont_map))
      in map (\<lambda>seq_id. (seq_id, lookup_array hifi_map seq_id, lookup_array ont_map seq_id))
             (filter (should_process_sequence self) seq_ids))"

subsection \<open>Runs of a boolean mask\<close>

text \<open>
  The scan that \<^verbatim>\<open>_find_continuous_regions\<close>, \<^verbatim>\<open>_mask_to_regions\<close> and
  \<^verbatim>\<open>_find_non_zero_segments\<close> each write out: \<open>i\<close> is the index of \<^verbatim>\<open>enumerate\<close>,
  \<open>start\<close> the open run if any.
\<close>

fun mask_scan :: "bool list \<Rightarrow> int \<Rightarrow> int option \<Rightarrow> (int \<times> int) list \<Rightarrow> int option \<times> (int \<times> int) list" where
  "mask_scan [] i start rs = (start, rs)"
| "mask_scan (v # vs) i start rs =
     (case start of
        None \<Rightarrow>
          if v then mask_scan vs (i + 1) (Some i) rs
          else mask_scan vs (i + 1) None rs
      | Some s \<Rightarrow>
          if \<not> v then mask_scan vs (i + 1) None (rs @ [(s, i - 1)])
          else mask_scan vs (i + 1) (Some s) rs)"

text \<open>After the loop: a run that is still open is closed at the last index.\<close>

definition close_run :: "nat \<Rightarrow> int option \<times> (int \<times> int) list \<Rightarrow> (int \<times> int) list" where
  "close_run n r =
     (case r of (start, rs) \<Rightarrow>
        (case start of None \<Rightarrow> rs | Some s \<Rightarrow> rs @ [(s, int n - 1)]))"

definition find_continuous_regions :: "bool list \<Rightarrow> (int \<times> int) list" where
  "find_continuous_regions msk =
     (if length msk = 0 then [] else close_run (length msk) (mask_scan msk 0 None []))"

definition mask_to_regions :: "bool list \<Rightarrow> (int \<times> int) list" where
  "mask_to_regions msk = close_run (length msk) (mask_scan msk 0 None [])"

definition find_non_zero_segments :: "nat list \<Rightarrow> bool list \<Rightarrow> (int \<times> int) list" where
  "find_non_zero_segments depths zero_mask =
     close_run (length depths) (mask_scan (map Not zero_mask) 0 None [])"

subsection \<open>\<^verbatim>\<open>DepthRegionAnalyzer\<close>\<close>

record depth_regions =
  zero_depth :: "(int \<times> int) list"
  low_depth :: "(int \<times> int) list"
  normal_depth :: "(int \<times> int) list"

text \<open>
  \<^verbatim>\<open>hifi_depths + ont_depths\<close> on two one-dimensional arrays: elementwise when the
  lengths agree, broadcast when one of them has length 1, \<^verbatim>\<open>ValueError\<close> otherwise.
\<close>

definition np_add :: "nat list \<Rightarrow> nat list \<Rightarrow> py_error + nat list" where
  "np_add a b =
     (if length a = length b then Inr (map2 (+) a b)
      else if length a = 1 then Inr (map (\<lambda>y. hd a + y) b)
      else if length b = 1 then Inr (map (\<lambda>x. x + hd b) a)
      else Inl ValueError)"

definition combined_depths :: "nat list \<Rightarrow> nat list \<Rightarrow> py_error + nat list" where
  "combined_depths hifi_depths ont_depths =
     (if length ont_depths > 0 \<and> length hifi_depths > 0 then np_add hifi_depths ont_depths
      else if length ont_depths > 0 then Inr ont_depths
      else Inr hifi_depths)"

definition analyze_depth_regions :: "int \<Rightarrow> nat list \<Rightarrow> nat list \<Rightarrow> py_error + depth_regions" where
  "analyze_depth_regions min_safe_depth hifi_depths ont_depths =
     (case combined_depths hifi_depths ont_depths of
        Inl e \<Rightarrow> Inl e
      | Inr combined \<Rightarrow>
          Inr \<lparr>zero_depth = find_continuous_regions (map (\<lambda>d. d = 0) combined),
               low_depth = find_continuous_regions
                             (map (\<lambda>d. d > 0 \<and> int d < min_safe_depth) combined),
               normal_depth = find_continuous_regions
                                (map (\<lambda>d. int d \<ge> min_safe_depth) combined)\<rparr>)"

subsection \<open>\<^verbatim>\<open>DataProcessor\<close>\<close>

text \<open>A slice \<^verbatim>\<open>xs[a:b]\<close>: a negative bound counts from the end, and both are clipped.\<close>

definition slice_bound :: "int \<Rightarrow> int \<Rightarrow> int" where
  "slice_bound n i = (if i < 0 then max (i + n) 0 else min i n)"

definition py_slice :: "'a list \<Rightarrow> int \<Rightarrow> int \<Rightarrow> 'a list" where
  "py_slice xs a b =
     (let n = int (length xs); lo = slice_bound n a; hi = slice_bound n b
      in take (nat (hi - lo)) (drop (nat lo) xs))"

text \<open>One pass of the inner \<^verbatim>\<open>for i in range(num_windows)\<close>.\<close>

definition window_at :: "int \<Rightarrow> int \<Rightarrow> nat list \<Rightarrow> int \<Rightarrow> (real \<times> int \<times> int) list" where
  "window_at window_size segment_start segment_depths i =
     (let segment_length = int (length segment_depths);
          window_start_in_segment = i * window_size;
          window_end_in_segment = min ((i + 1) * window_size) segment_length;
          abs_start = segment_start + window_start_in_segment;
          abs_end = segment_start + window_end_in_segment - 1;
          window_data = py_slice segment_depths window_start_in_segment window_end_in_segment
      in if length window_data > 0 then [(mean window_data, abs_start, abs_end)] else [])"

text \<open>The body of \<^verbatim>\<open>for segment_start, segment_end in segments\<close>; \<^verbatim>\<open>//\<close> by 0 raises.\<close>

definition segment_windows :: "int \<Rightarrow> nat list \<Rightarrow> int \<times> int \<Rightarrow> py_error + (real \<times> int \<times> int) list" where
  "segment_windows window_size depths seg =
     (case seg of (segment_start, segment_end) \<Rightarrow>
        (let segment_depths = py_slice depths segment_start (segment_end + 1);
             segment_length = int (length segment_depths)
         in if segment_length = 0 then Inr []
            else if window_size = 0 then Inl ZeroDivisionError
            else
              (let n0 = max 1 (segment_length div window_size);
                   num_windows = (if segment_length mod window_size \<noteq> 0 then n0 + 1 else n0)
               in Inr (concat (map (window_at window_size segment_start segment_depths)
                                   [0..num_windows - 1])))))"

fun windows_loop :: "int \<Rightarrow> nat list \<Rightarrow> (int \<times> int) list \<Rightarrow> (real \<times> int \<times> int) list
                      \<Rightarrow> py_error + (real \<times> int \<times> int) list" where
  "windows_loop window_size depths [] acc = Inr acc"
| "windows_loop window_size depths (seg # segs) acc =
     (case segment_windows window_size depths seg of
        Inl e \<Rightarrow> Inl e
      | Inr ws \<Rightarrow> windows_loop window_size depths segs (acc @ ws))"

text \<open>
  The three lists \<^verbatim>\<open>all_means\<close>, \<^verbatim>\<open>all_starts\<close>, \<^verbatim>\<open>all_ends\<close> grow in step; they are
  kept as one list of triples and split at the return.
\<close>

definition calculate_windowed_stats :: "int \<Rightarrow> nat list \<Rightarrow> py_error + (real list \<times> int list \<times> int list)" where
  "calculate_windowed_stats window_size depths =
     (if length depths = 0 then Inr ([], [], [])
      else
        (case windows_loop window_size depths
                (find_non_zero_segments depths (map (\<lambda>d. d = 0) depths)) [] of
           Inl e \<Rightarrow> Inl e
         | Inr ws \<Rightarrow> Inr (map fst ws, map (fst \<circ> snd) ws, map (snd \<circ> snd) ws)))"

text \<open>\<^verbatim>\<open>DataProcessor.analyze_depth_regions\<close>: the dictionary in insertion order.\<close>

definition dp_analyze_depth_regions :: "nat list \<Rightarrow> int \<Rightarrow> (string \<times> (int \<times> int) list) list" where
  "dp_analyze_depth_regions depths min_safe_depth =
     (if length depths = 0 then [(''zero'', []), (''low'', []), (''medium'', [])]
      else [(''zero'', mask_to_regions (map (\<lambda>d. d = 0) depths)),
            (''low'', mask_to_regions (map (\<lambda>d. d > 0 \<and> int d < min_safe_depth) depths))])"

subsection \<open>\<^verbatim>\<open>SlidingWindowProcessor\<close>\<close>





subsection \<open>\<^verbatim>\<open>DepthPlotter.plot_single_sequence\<close>\<close>

text \<open>
  What the function does to the outside world, in order: the message printed when there
  is nothing to plot, the creation of the figure, the drawing calls on it, the file
  written by \<^verbatim>\<open>savefig\<close>, the closing of the figure. The drawing primitives themselves
  belong to the plotting library.
\<close>

datatype plot_mode = Both | Hifi_only | Ont_only

record output_path =
  path_dir :: string
  path_seq_id :: string
  path_region :: "(int \<times> int) option"
  path_format :: string

datatype effect =
    Print_no_depth_data string
  | Create_figure
  | Draw plot_mode
  | Save_figure output_path
  | Close_figure

record DepthPlotter =
  output_format :: string
  output_dir :: string
  max_depth_ratio :: real

text \<open>\<^verbatim>\<open>_save_plot\<close>: the directory argument, when given, replaces \<^verbatim>\<open>self.output_dir\<close>.\<close>

definition save_plot :: "DepthPlotter \<Rightarrow> string \<Rightarrow> (int \<times> int) list option \<Rightarrow> string option \<Rightarrow> output_path" where
  "save_plot self seq_id rgs out_dir =
     \<lparr>path_dir = (case out_dir of None \<Rightarrow> output_dir self
                             | Some d \<Rightarrow> if d = [] then output_dir self else d),
      path_seq_id = seq_id,
      path_region = (case rgs of None \<Rightarrow> None | Some [] \<Rightarrow> None | Some (r # _) \<Rightarrow> Some r),
      path_format = output_format self\<rparr>"

text \<open>The window statistics and the regions of one dataset (\<^verbatim>\<open>processed_data\<close>).\<close>

definition process_dataset :: "int \<Rightarrow> int \<Rightarrow> nat list
    \<Rightarrow> py_error + ((real list \<times> int list \<times> int list) \<times> (string \<times> (int \<times> int) list) list)" where
  "process_dataset window_size min_safe_depth depths =
     (case calculate_windowed_stats window_size depths of
        Inl e \<Rightarrow> Inl e
      | Inr stats \<Rightarrow> Inr (stats, dp_analyze_depth_regions depths min_safe_depth))"

definition plot_single_sequence ::
  "DepthPlotter \<Rightarrow> string \<Rightarrow> nat list option \<Rightarrow> nat list option \<Rightarrow> int
     \<Rightarrow> (int \<times> int) list option \<Rightarrow> string option \<Rightarrow> int
     \<Rightarrow> effect list \<times> (py_error + output_path option)" where
  "plot_single_sequence self seq_id hifi_depths ont_depths window_size rgs out_dir min_safe_depth =
     (let hifi_depths_array = (case hifi_depths of Some h \<Rightarrow> h | None \<Rightarrow> []);
          ont_depths_array = (case ont_depths of Some n \<Rightarrow> n | None \<Rightarrow> []);
          has_hifi = (length hifi_depths_array > 0);
          has_ont = (length ont_depths_array > 0)
      in if \<not> has_hifi \<and> \<not> has_ont then ([Print_no_depth_data seq_id], Inr None)
         else if has_hifi \<and> has_ont \<and> length hifi_depths_array \<noteq> length ont_depths_array
         then ([], Inl (LengthMismatch seq_id (length hifi_depths_array) (length ont_depths_array)))
         else
           (case (if has_hifi then process_dataset window_size min_safe_depth hifi_depths_array
                  else Inr (([], [], []), [])) of
              Inl e \<Rightarrow> ([], Inl e)
            | Inr processed_hifi \<Rightarrow>
                (case (if has_ont then process_dataset window_size min_safe_depth ont_depths_array
                       else Inr (([], [], []), [])) of
                   Inl e \<Rightarrow> ([], Inl e)
                 | Inr processed_ont \<Rightarrow>
                     (let mode = (if has_hifi \<and> has_ont then Both
                                  else if has_hifi then Hifi_only else Ont_only);
                          output = save_plot self seq_id rgs out_dir
                      in ([Create_figure, Draw mode, Save_figure output, Close_figure],
                          Inr (Some output))))))"

subsection \<open>Montage: panel layout and the placement of the scale bar\<close>

type_synonym rect4 = "real \<times> real \<times> real \<times> real"

text \<open>
  The fields of \<^verbatim>\<open>args\<close> that the layout reads. \<^verbatim>\<open>panel_gap\<close> is \<^verbatim>\<open>None\<close> unless given.
\<close>

record montage_args =
  args_svg_height :: real
  args_scale_y_ratio :: real
  args_depth_height :: real
  args_panel_gap :: "int option"
  args_top_margin :: int
  args_window_size :: int
  args_min_safe_depth :: int
  args_max_depth_ratio :: real


record layout =
  x_left_top :: real
  x_right_top :: real
  x_left_bottom :: real
  x_right_bottom :: real
  y_top :: real
  h_top :: real
  y_bottom :: real
  h_bottom :: real
  block_y_top :: real
  block_y_bottom :: real
  middle_y :: real


definition overlaps :: "rect4 \<Rightarrow> rect4 \<Rightarrow> bool" where
  "overlaps a b =
     (case a of (ax1, ay1, ax2, ay2) \<Rightarrow> case b of (bx1, by1, bx2, by2) \<Rightarrow>
        \<not> (ax2 \<le> bx1 \<or> bx2 \<le> ax1 \<or> ay2 \<le> by1 \<or> by2 \<le> ay1))"

definition depth_rects :: "montage_args \<Rightarrow> layout \<Rightarrow> rect4 list" where
  "depth_rects args lay =
     [(x_left_top lay, block_y_top lay, x_right_top lay,
       block_y_top lay + 2 * args_depth_height args),
      (x_left_bottom lay, block_y_bottom lay, x_right_bottom lay,
       block_y_bottom lay + 2 * args_depth_height args)]"

text \<open>
  What \<^verbatim>\<open>_extract_inner_svg(_read_file(tmp_svg_path))\<close> returns after a run of the
  diagram generator. The markup \<open>'m\<close> stays abstract: the generator is a function
  \<open>gen\<close> from \<^verbatim>\<open>scale_y_ratio\<close> to a render, and \<^verbatim>\<open>_extract_scale_bbox\<close> is a function
  \<open>bbox\<close> from the markup to an optional box \<open>(x, y, w, h)\<close>, or to the \<^verbatim>\<open>ValueError\<close> of
  \<^verbatim>\<open>float\<close> on an attribute it cannot read.
\<close>

record 'm render =
  inner :: 'm
  width :: int
  align_height :: int

definition scale_bbox_abs :: "('m \<Rightarrow> py_error + rect4 option) \<Rightarrow> layout \<Rightarrow> 'm \<Rightarrow> py_error + rect4 option" where
  "scale_bbox_abs bbox lay inner_svg_text =
     (case bbox inner_svg_text of
        Inl e \<Rightarrow> Inl e
      | Inr None \<Rightarrow> Inr None
      | Inr (Some (sx, sy, sw, sh)) \<Rightarrow>
          Inr (Some (sx, sy + middle_y lay, sx + sw, sy + sh + middle_y lay)))"

definition hit_depth :: "montage_args \<Rightarrow> layout \<Rightarrow> rect4 \<Rightarrow> bool" where
  "hit_depth args lay sb = list_ex (overlaps sb) (depth_rects args lay)"

text \<open>
  The \<^verbatim>\<open>for ratio in [...]\<close> loop, written twice in \<^verbatim>\<open>run\<close> with the same body:
  \<open>kept\<close> is the render in hand, which only a \<^verbatim>\<open>break\<close> replaces.
\<close>

fun try_ratios :: "(real \<Rightarrow> 'm render) \<Rightarrow> ('m \<Rightarrow> py_error + rect4 option) \<Rightarrow> montage_args \<Rightarrow> layout
                    \<Rightarrow> real list \<Rightarrow> 'm render \<Rightarrow> py_error + 'm render" where
  "try_ratios gen bbox args lay [] kept = Inr kept"
| "try_ratios gen bbox args lay (ratio # rest) kept =
     (let new = gen ratio
      in case scale_bbox_abs bbox lay (inner new) of
           Inl e \<Rightarrow> Inl e
         | Inr None \<Rightarrow> Inr new
         | Inr (Some sb) \<Rightarrow>
             if \<not> hit_depth args lay sb then Inr new
             else try_ratios gen bbox args lay rest kept)"

definition default_hits_depth :: "montage_args \<Rightarrow> layout \<Rightarrow> bool" where
  "default_hits_depth args lay =
     (let default_abs_y = middle_y lay + args_svg_height args * args_scale_y_ratio args
      in (block_y_top lay \<le> default_abs_y
            \<and> default_abs_y \<le> block_y_top lay + 2 * args_depth_height args)
         \<or> (block_y_bottom lay \<le> default_abs_y
            \<and> default_abs_y \<le> block_y_bottom lay + 2 * args_depth_height args))"

definition gap_between :: "layout \<Rightarrow> real" where
  "gap_between lay = max 0 (y_bottom lay - (y_top lay + h_top lay))"

definition safe_ratio :: "montage_args \<Rightarrow> layout \<Rightarrow> real" where
  "safe_ratio args lay =
     (let safe_y = min (y_bottom lay - 10) (y_top lay + h_top lay + gap_between lay * (3 / 4))
      in max 0 (min 1 (safe_y / args_svg_height args)))"

definition fallback_ratios :: "montage_args \<Rightarrow> layout \<Rightarrow> real list" where
  "fallback_ratios args lay =
     [max 0 (min 1 ((y_top lay + h_top lay + gap_between lay * (6 / 10)) / args_svg_height args)),
      max 0 (min 1 ((y_top lay + h_top lay + gap_between lay * (3 / 10)) / args_svg_height args)),
      95 / 100]"

text \<open>
  The part of \<^verbatim>\<open>run\<close> between the layout and the reading of the depth files: from the
  first render it returns the render that goes into the output. A division by
  \<^verbatim>\<open>args.svg_height\<close> raises when that is 0.
\<close>

definition place_scale_bar :: "(real \<Rightarrow> 'm render) \<Rightarrow> ('m \<Rightarrow> py_error + rect4 option) \<Rightarrow> montage_args
                                \<Rightarrow> layout \<Rightarrow> 'm render \<Rightarrow> py_error + 'm render" where
  "place_scale_bar gen bbox args lay first =
     (if default_hits_depth args lay then
        (if args_svg_height args = 0 then Inl ZeroDivisionError
         else
           (let inner_new = gen (safe_ratio args lay)
            in case scale_bbox_abs bbox lay (inner inner_new) of
                 Inl e \<Rightarrow> Inl e
               | Inr None \<Rightarrow> Inr inner_new
               | Inr (Some sb_abs_try) \<Rightarrow>
                   if hit_depth args lay sb_abs_try
                   then try_ratios gen bbox args lay (fallback_ratios args lay) inner_new
                   else Inr inner_new))
      else
        (case scale_bbox_abs bbox lay (inner first) of
           Inl e \<Rightarrow> Inl e
         | Inr None \<Rightarrow> Inr first
         | Inr (Some sb_abs) \<Rightarrow>
             if hit_depth args lay sb_abs
             then try_ratios gen bbox args lay [42 / 100, 12 / 100, 95 / 100] first
             else Inr first))"

subsection \<open>Montage: \<^verbatim>\<open>build_bars_for_seq\<close>\<close>

text \<open>
  An element of the panel before it is printed with two decimals:
  \<open>Rect x y width height class\<close> and \<open>Line x1 y1 x2 y2 class\<close>.
\<close>

datatype svg_elem =
    Rect real real real real string
  | Line real real real real string

definition nonzero_mean :: "nat list \<Rightarrow> real" where
  "nonzero_mean vs =
     (let nz = filter (\<lambda>v. v > 0) vs
      in if length nz > 0 then real (sum_list nz) / real (length nz) else 0)"

definition dataset_cap :: "real \<Rightarrow> nat list \<Rightarrow> real" where
  "dataset_cap max_ratio vs =
     (if nonzero_mean vs > 0 then nonzero_mean vs * max_ratio else 0)"

definition global_cap :: "real \<Rightarrow> nat list \<Rightarrow> nat list \<Rightarrow> real" where
  "global_cap max_ratio h n =
     (let g = max (dataset_cap max_ratio h) (dataset_cap max_ratio n)
      in if g \<le> 0 then 1 else g)"

text \<open>\<^verbatim>\<open>hifi_cap\<close> and \<^verbatim>\<open>ont_cap\<close>: the cap of the dataset, or the shared one.\<close>

definition own_cap :: "real \<Rightarrow> nat list \<Rightarrow> real \<Rightarrow> real" where
  "own_cap max_ratio vs gcap =
     (if dataset_cap max_ratio vs > 0 then dataset_cap max_ratio vs else gcap)"

text \<open>The background rectangles of the zero and low regions of one half.\<close>

definition region_rects :: "real \<Rightarrow> real \<Rightarrow> int \<Rightarrow> real \<Rightarrow> real
                             \<Rightarrow> (string \<times> (int \<times> int) list) list \<Rightarrow> svg_elem list" where
  "region_rects x_left x_span seq_len y_bg depth_height items =
     concat (map (\<lambda>(region_type, region_list).
        (let cls = (if region_type = ''zero'' then Some ''depth-zero-bg''
                    else if region_type = ''low'' then Some ''depth-low-bg'' else None)
         in case cls of
              None \<Rightarrow> []
            | Some c \<Rightarrow>
                concat (map (\<lambda>(s, e).
                  (let x1 = x_left + (of_int s / of_int (max 1 (seq_len - 1))) * x_span;
                       x2 = x_left + (of_int e / of_int (max 1 (seq_len - 1))) * x_span;
                       w_px_bg = max 0 (x2 - x1)
                   in if w_px_bg \<le> 0 then [] else [Rect x1 y_bg w_px_bg depth_height c]))
                  region_list))) items)"

text \<open>One bar: \<open>up\<close> for the HiFi half above the baseline, else the ONT half below.\<close>

definition bar_rect :: "bool \<Rightarrow> real \<Rightarrow> real \<Rightarrow> int \<Rightarrow> real \<Rightarrow> real \<Rightarrow> real \<Rightarrow> real
                         \<Rightarrow> real \<times> int \<times> int \<Rightarrow> svg_elem" where
  "bar_rect up x_left x_span seq_len baseline_y depth_height cap gcap w =
     (case w of (m, s, e) \<Rightarrow>
        (let center = (of_int s + of_int e) / 2;
             width_bp = e - s + 1;
             x_center = x_left + (center / of_int (max 1 (seq_len - 1))) * x_span;
             w_px = x_span * (of_int width_bp / of_int (max 1 (seq_len - 1)));
             m_clamped = min m cap;
             h_px = depth_height * (m_clamped / gcap);
             x_rect = x_center - w_px / 2;
             y_rect = (if up then baseline_y - h_px else baseline_y)
         in Rect x_rect y_rect w_px h_px (if up then ''depth-top'' else ''depth-bottom'')))"

definition mean_line :: "bool \<Rightarrow> real \<Rightarrow> real \<Rightarrow> real \<Rightarrow> real \<Rightarrow> real \<Rightarrow> real
                          \<Rightarrow> real list \<Rightarrow> svg_elem list" where
  "mean_line up x_left x_right baseline_y depth_height cap gcap means =
     (let avg = (if length means > 0 then sum_list means / real (length means) else 0)
      in if avg > 0 then
           (let avg_clamped = min avg cap;
                y_mean = (if up then baseline_y - depth_height * (avg_clamped / gcap)
                          else baseline_y + depth_height * (avg_clamped / gcap))
            in [Line x_left y_mean x_right y_mean ''mean''])
         else [])"

text \<open>
  One of the two \<^verbatim>\<open>if len(...) > 0\<close> blocks: the background rectangles, then the
  bars followed by the mean line.
\<close>

definition half_panel :: "bool \<Rightarrow> montage_args \<Rightarrow> nat list \<Rightarrow> int \<Rightarrow> real \<Rightarrow> real \<Rightarrow> real
                           \<Rightarrow> real \<Rightarrow> real \<Rightarrow> py_error + (svg_elem list \<times> svg_elem list)" where
  "half_panel up args vs seq_len x_left x_right baseline_y cap gcap =
     (if length vs > 0 then
        (case calculate_windowed_stats (args_window_size args) vs of
           Inl e \<Rightarrow> Inl e
         | Inr (means, starts, ends) \<Rightarrow>
             (let depth_height = args_depth_height args;
                  x_span = x_right - x_left;
                  y_bg = (if up then baseline_y - depth_height else baseline_y);
                  bg = region_rects x_left x_span seq_len y_bg depth_height
                         (dp_analyze_depth_regions vs (args_min_safe_depth args));
                  bars = map (bar_rect up x_left x_span seq_len baseline_y depth_height cap gcap)
                             (zip means (zip starts ends))
              in Inr (bg, bars @ mean_line up x_left x_right baseline_y depth_height cap gcap means)))
      else Inr ([], []))"

definition build_bars_for_seq ::
  "montage_args \<Rightarrow> nat list option \<Rightarrow> nat list option \<Rightarrow> real \<Rightarrow> real \<Rightarrow> real
     \<Rightarrow> py_error + (svg_elem list \<times> svg_elem list \<times> svg_elem list \<times> real)" where
  "build_bars_for_seq args hifi_arr ont_arr x_left x_right panel_origin_y =
     (let h = (case hifi_arr of Some a \<Rightarrow> a | None \<Rightarrow> []);
          n = (case ont_arr of Some a \<Rightarrow> a | None \<Rightarrow> []);
          seq_len = int (max (length h) (length n));
          depth_height = args_depth_height args
      in if seq_len = 0 then Inr ([], [], [], panel_origin_y + depth_height)
         else
           (let max_ratio = args_max_depth_ratio args;
                gcap = global_cap max_ratio h n;
                baseline_y = panel_origin_y + depth_height
            in case half_panel True args h seq_len x_left x_right baseline_y
                      (own_cap max_ratio h gcap) gcap of
                 Inl e \<Rightarrow> Inl e
               | Inr (bg_h, bars_top) \<Rightarrow>
                   (case half_panel False args n seq_len x_left x_right baseline_y
                           (own_cap max_ratio n gcap) gcap of
                      Inl e \<Rightarrow> Inl e
                    | Inr (bg_n, bars_bottom) \<Rightarrow>
                        Inr (bg_h @ bg_n, bars_top, bars_bottom, baseline_y))))"

section \<open>Notions used to state the properties\<close>

subsection \<open>Intervals and coverage\<close>

text \<open>The indices that a list of closed intervals covers.\<close>

definition covered :: "(int \<times> int) list \<Rightarrow> int set" where
  "covered rs = (\<Union>(a, b) \<in> set rs. {a..b})"

text \<open>Two closed intervals share no index.\<close>

definition non_overlapping :: "int \<times> int \<Rightarrow> int \<times> int \<Rightarrow> bool" where
  "non_overlapping r r' = (snd r < fst r' \<or> snd r' < fst r)"

text \<open>
  The three region lists partition the index range of an array of length \<open>n\<close>: every
  interval lies inside \<open>[0, n - 1]\<close> and is well formed, any two intervals of the three
  lists taken together share no index, and together they cover exactly \<open>[0, n - 1]\<close>.
\<close>

definition region_partition :: "nat \<Rightarrow> depth_regions \<Rightarrow> bool" where
  "region_partition n r =
     (let every = zero_depth r @ low_depth r @ normal_depth r
      in (\<forall>(a, b) \<in> set every. 0 \<le> a \<and> a \<le> b \<and> b \<le> int n - 1) \<and>
         sorted_wrt non_overlapping every \<and>
         covered every = {0..int n - 1})"

text \<open>The positions, counted from \<open>i\<close>, at which a mask is true.\<close>

definition true_positions :: "int \<Rightarrow> bool list \<Rightarrow> int set" where
  "true_positions i vs = {i + int k | k. k < length vs \<and> vs ! k}"

text \<open>The indices of the run that is open when the scan stands at index \<open>i\<close>.\<close>

definition open_run :: "int option \<Rightarrow> int \<Rightarrow> int set" where
  "open_run start i = (case start of None \<Rightarrow> {} | Some s \<Rightarrow> {s..i - 1})"

text \<open>
  The invariant of the scan at index \<open>i\<close>: the closed runs are in increasing order,
  lie at or above \<open>lo\<close> and end before the open run (or before \<open>i\<close>), and an open run
  started at or above \<open>lo\<close> and before \<open>i\<close>.
\<close>

definition scan_inv :: "int \<Rightarrow> int \<Rightarrow> int option \<Rightarrow> (int \<times> int) list \<Rightarrow> bool" where
  "scan_inv lo i start rs =
     (sorted_wrt (\<lambda>r r'. snd r < fst r') rs \<and>
      (\<forall>(a, b) \<in> set rs. lo \<le> a \<and> a \<le> b \<and> b < (case start of None \<Rightarrow> i | Some s \<Rightarrow> s)) \<and>
      (\<forall>s. start = Some s \<longrightarrow> lo \<le> s \<and> s < i) \<and> lo \<le> i)"

subsection \<open>Scale-bar search\<close>

text \<open>
  A candidate ratio is accepted when the render it produces has no scale-bar box, or a
  box that overlaps neither depth panel.
\<close>

definition acceptable :: "(real \<Rightarrow> 'm render) \<Rightarrow> ('m \<Rightarrow> py_error + rect4 option) \<Rightarrow> montage_args
                           \<Rightarrow> layout \<Rightarrow> real \<Rightarrow> bool" where
  "acceptable gen bbox args lay ratio =
     (case scale_bbox_abs bbox lay (inner (gen ratio)) of
        Inl e \<Rightarrow> False
      | Inr None \<Rightarrow> True
      | Inr (Some sb) \<Rightarrow> \<not> hit_depth args lay sb)"

text \<open>
  A concrete setting: the default arguments of the command line, two track rows, and a
  generator whose markup is the ratio it was asked for. The first box follows the
  ratio; the second stays inside the bottom panel whatever the ratio.
\<close>

definition ex_args :: montage_args where
  "ex_args = \<lparr>args_svg_height = 800, args_scale_y_ratio = 9 / 10, args_depth_height = 160,
              args_panel_gap = None, args_top_margin = 40, args_window_size = 1000,
              args_min_safe_depth = 5, args_max_depth_ratio = 3\<rparr>"






subsection \<open>Bar heights\<close>

text \<open>
  Following the words of the specification: the cap of a dataset is its non-zero mean
  times the ratio, the shared cap is the larger of the two caps, and the height of a
  bar is the window mean, clamped to the cap of its own dataset, over the shared cap,
  times the panel height.
\<close>

definition spec_cap :: "real \<Rightarrow> nat list \<Rightarrow> real" where
  "spec_cap max_ratio vs = nonzero_mean vs * max_ratio"

definition spec_shared_cap :: "real \<Rightarrow> nat list \<Rightarrow> nat list \<Rightarrow> real" where
  "spec_shared_cap max_ratio a b = max (spec_cap max_ratio a) (spec_cap max_ratio b)"

definition spec_bar_height :: "real \<Rightarrow> real \<Rightarrow> nat list \<Rightarrow> nat list \<Rightarrow> nat list \<Rightarrow> real \<Rightarrow> real" where
  "spec_bar_height depth_height max_ratio own a b m =
     depth_height * (min m (spec_cap max_ratio own) / spec_shared_cap max_ratio a b)"

fun rect_heights :: "svg_elem list \<Rightarrow> real list" where
  "rect_heights [] = []"
| "rect_heights (Rect x y w h c # es) = h # rect_heights es"
| "rect_heights (Line x1 y1 x2 y2 c # es) = rect_heights es"



definition ex_args_neg :: montage_args where
  "ex_args_neg = ex_args\<lparr>args_max_depth_ratio := - 1\<rparr>"


text \<open>
  The sequence that the parser would commit at the next header or at the end of the
  file: the current one, when it is included and its ID is not empty.
\<close>

definition pending :: "parse_state \<Rightarrow> string set" where
  "pending st =
     (case current_seq st of
        None \<Rightarrow> {}
      | Some sid \<Rightarrow>
          if sid \<noteq> [] \<and> include_current st \<and> current_depth_array st \<noteq> None then {sid} else {})"

section \<open>Properties\<close>

subsection \<open>Parsing of depth files\<close>

lemmas parse_eval = parse_depth_file_filtered_def DepthParser_init_def process_line_def
  py_strip_def is_space_def startswith_gt_def commit_current_def py_int_def is_digit_def
  digit_val_def array_H_append_def mean_def

lemma py_digits_error: "py_digits s p a = Inl e \<Longrightarrow> e = ValueError"
  by (induction s p a rule: py_digits.induct) (auto split: if_splits)

lemma py_int_error: "py_int s = Inl e \<Longrightarrow> e = ValueError"
  by (auto simp: py_int_def split: list.splits if_splits sum.splits dest: py_digits_error)

lemma process_line_value:
  assumes "current_depth_array st = Some arr" "include_current st"
    "\<not> startswith_gt (py_strip raw)"
  shows "process_line T st raw =
     Inr (case py_int (py_strip raw) of
            Inl e \<Rightarrow> st
          | Inr d \<Rightarrow> if d < 0 then st
                     else if d > 65535 then st\<lparr>current_depth_array := Some (arr @ [65535])\<rparr>
                     else st\<lparr>current_depth_array := Some (arr @ [nat d])\<rparr>)"
proof (cases "py_int (py_strip raw)")
  case (Inl e)
  then have "e = ValueError" by (rule py_int_error)
  with Inl assms show ?thesis by (simp add: process_line_def)
next
  case (Inr d)
  with assms show ?thesis by (simp add: process_line_def array_H_append_def)
qed




text \<open>With an empty target set no sequence is ever included, so nothing is committed.\<close>

lemma commit_current_excluded:
  "\<not> include_current st \<Longrightarrow>
     seqs (commit_current st) = seqs st \<and> \<not> include_current (commit_current st)"
  by (simp add: commit_current_def split: option.splits)

lemma process_line_no_targets:
  assumes "\<not> include_current st" "process_line {} st raw = Inr st'"
  shows "seqs st' = seqs st \<and> \<not> include_current st'"
proof (cases "startswith_gt (py_strip raw)")
  case True
  with assms(2) have "st' = (commit_current st)\<lparr>current_seq := Some (drop 1 (py_strip raw)),
                            include_current := False, current_depth_array := None\<rparr>"
    by (simp add: process_line_def Let_def)
  with commit_current_excluded[OF assms(1)] show ?thesis by simp
next
  case False
  with assms have "st' = st" by (simp add: process_line_def split: option.splits)
  with assms(1) show ?thesis by simp
qed

lemma process_lines_no_targets:
  assumes "\<not> include_current st" "process_lines {} st ls = Inr st'"
  shows "seqs st' = seqs st \<and> \<not> include_current st'"
  using assms
proof (induction ls arbitrary: st)
  case Nil
  then show ?case by simp
next
  case (Cons l ls)
  from Cons.prems(2) obtain st1 where step: "process_line {} st l = Inr st1"
    and run: "process_lines {} st1 ls = Inr st'"
    by (auto split: sum.splits)
  from process_line_no_targets[OF Cons.prems(1) step]
  have keep: "seqs st1 = seqs st" and excl: "\<not> include_current st1" by simp_all
  from Cons.IH[OF excl run] keep show ?case by simp
qed

lemma parse_no_targets:
  assumes "parse_depth_file_filtered self {} = Inr p"
  shows "sequences p = sequences self"
proof (cases "depth_file self")
  case Unreadable
  with assms show ?thesis by (simp add: parse_depth_file_filtered_def)
next
  case (Lines ls)
  define st0 where "st0 = \<lparr>current_seq = None, current_depth_array = None,
    include_current = False, seqs = sequences self, processed_count = 0, skipped_count = 0\<rparr>"
  from assms Lines obtain st where run: "process_lines {} st0 ls = Inr st"
    and p: "sequences p = seqs (commit_current st)"
    by (auto simp: parse_depth_file_filtered_def Let_def st0_def split: sum.splits)
  have "\<not> include_current st0" by (simp add: st0_def)
  from process_lines_no_targets[OF this run]
  have "seqs st = seqs st0" "\<not> include_current st" by simp_all
  with commit_current_excluded[of st] p show ?thesis by (simp add: st0_def)
qed

text \<open>
  The IDs in the store after a parse, for any target set: the IDs of the source that
  are in the target set and not empty.
\<close>

lemma header_ids_Nil: "header_ids [] = {}"
  by (simp add: header_ids_def)

lemma header_ids_Cons:
  "header_ids (l # ls) =
     (if startswith_gt (py_strip l) then {drop 1 (py_strip l)} else {}) \<union> header_ids ls"
  by (auto simp: header_ids_def)

lemma commit_current_keys:
  "fst ` set (seqs (commit_current st)) = fst ` set (seqs st) \<union> pending st"
  by (auto simp: commit_current_def pending_def AList.dom_update split: option.splits)

lemma process_line_keys:
  assumes "process_line T st raw = Inr st'"
  shows "fst ` set (seqs st') \<union> pending st'
           = fst ` set (seqs st) \<union> pending st
             \<union> (if startswith_gt (py_strip raw) \<and> drop 1 (py_strip raw) \<in> T
                    \<and> drop 1 (py_strip raw) \<noteq> []
                 then {drop 1 (py_strip raw)} else {})"
proof (cases "startswith_gt (py_strip raw)")
  case True
  with assms have st': "st' = (commit_current st)\<lparr>current_seq := Some (drop 1 (py_strip raw)),
        include_current := (drop 1 (py_strip raw) \<in> T),
        current_depth_array := (if drop 1 (py_strip raw) \<in> T then Some [] else None)\<rparr>"
    by (simp add: process_line_def Let_def)
  have "seqs st' = seqs (commit_current st)" by (simp add: st')
  moreover have "pending st' = (if drop 1 (py_strip raw) \<in> T \<and> drop 1 (py_strip raw) \<noteq> []
                 then {drop 1 (py_strip raw)} else {})"
    by (simp add: st' pending_def)
  ultimately show ?thesis using True by (simp add: commit_current_keys)
next
  case False
  have "seqs st' = seqs st \<and> pending st' = pending st"
  proof (cases "current_depth_array st")
    case None
    with False assms show ?thesis by (simp add: process_line_def)
  next
    case (Some arr)
    show ?thesis
    proof (cases "include_current st")
      case True
      from process_line_value[OF Some True False, of T] assms
      show ?thesis using Some True
        by (auto simp: pending_def split: sum.splits if_splits option.splits)
    next
      case no: False
      with False Some assms show ?thesis by (simp add: process_line_def)
    qed
  qed
  with False show ?thesis by simp
qed

lemma process_lines_keys:
  assumes "process_lines T st ls = Inr st'"
  shows "fst ` set (seqs st') \<union> pending st'
           = fst ` set (seqs st) \<union> pending st \<union> {i \<in> header_ids ls. i \<in> T \<and> i \<noteq> []}"
  using assms
proof (induction ls arbitrary: st)
  case Nil
  then show ?case by (simp add: header_ids_Nil)
next
  case (Cons l ls)
  from Cons.prems obtain st1 where step: "process_line T st l = Inr st1"
    and run: "process_lines T st1 ls = Inr st'"
    by (auto split: sum.splits)
  from Cons.IH[OF run] process_line_keys[OF step] show ?case
    by (auto simp: header_ids_Cons split: if_splits)
qed

lemma parse_keys:
  assumes "parse_depth_file_filtered (DepthParser_init (Lines ls)) T = Inr p"
  shows "fst ` set (sequences p) = {i \<in> header_ids ls. i \<in> T \<and> i \<noteq> []}"
proof -
  define st0 where "st0 = \<lparr>current_seq = None, current_depth_array = None,
    include_current = False, seqs = [], processed_count = 0, skipped_count = 0\<rparr>"
  from assms obtain st where run: "process_lines T st0 ls = Inr st"
    and p: "sequences p = seqs (commit_current st)"
    by (auto simp: parse_depth_file_filtered_def DepthParser_init_def Let_def st0_def
             split: sum.splits)
  have "pending st0 = {}" "seqs st0 = []" by (simp_all add: st0_def pending_def)
  with process_lines_keys[OF run] p show ?thesis by (simp add: commit_current_keys)
qed

text \<open>
  Claim C1. For an empty target set the claim asks for every sequence of the source in
  the resulting store. On the source with the single sequence \<^verbatim>\<open>chr1\<close> the parse
  with the empty target set returns an empty store: membership in the empty set is
  false for every header, so \<^verbatim>\<open>include_current\<close> never becomes true.
\<close>

theorem empty_target_set_keeps_nothing:
  "''chr1'' \<in> header_ids [''>chr1'', ''5'']
   \<and> parse_depth_file_filtered (DepthParser_init (Lines [''>chr1'', ''5''])) {}
       = Inr \<lparr>depth_file = Lines [''>chr1'', ''5''], sequences = [], mean_depths = []\<rparr>"
proof
  have "''chr1'' = drop 1 (py_strip ''>chr1'') \<and> ''>chr1'' \<in> set [''>chr1'', ''5'']
          \<and> startswith_gt (py_strip ''>chr1'')"
    by (simp add: py_strip_def is_space_def startswith_gt_def)
  then show "''chr1'' \<in> header_ids [''>chr1'', ''5'']"
    unfolding header_ids_def by blast
  show "parse_depth_file_filtered (DepthParser_init (Lines [''>chr1'', ''5''])) {}
       = Inr \<lparr>depth_file = Lines [''>chr1'', ''5''], sequences = [], mean_depths = []\<rparr>"
    by (simp add: parse_eval)
qed



subsection \<open>The synchronized reader\<close>

lemma parse_source_no_targets: "parse_source f [] = []"
proof (cases f)
  case None
  then show ?thesis by (simp add: parse_source_def)
next
  case (Some src)
  show ?thesis
  proof (cases "parse_depth_file_filtered (DepthParser_init src) {}")
    case (Inl e)
    with Some show ?thesis by (simp add: parse_source_def)
  next
    case (Inr p)
    from parse_no_targets[OF Inr] have "sequences p = []" by (simp add: DepthParser_init_def)
    with Some Inr show ?thesis by (simp add: parse_source_def)
  qed
qed

lemma read_sequences_no_targets: "target_sequences self = [] \<Longrightarrow> read_sequences self = []"
  by (simp add: read_sequences_def parse_source_no_targets)

text \<open>
  Claim C2. With file A holding \<^verbatim>\<open>chr1\<close>, \<^verbatim>\<open>chr2\<close> and file B holding \<^verbatim>\<open>chr2\<close>,
  \<^verbatim>\<open>chr3\<close>, the claim asks the reader without targets for the three sequences. Both
  files are parsed with the empty target set, both maps come back empty, and the
  reader yields nothing.
\<close>

theorem no_target_reader_yields_nothing:
  "read_sequences \<lparr>hifi_file = Some (Lines [''>chr1'', ''1'', ''>chr2'', ''2'']),
                   ont_file = Some (Lines [''>chr2'', ''3'', ''>chr3'', ''4'']),
                   target_sequences = [], regions = None\<rparr> = []"
  by (simp add: read_sequences_no_targets)

subsection \<open>Runs of a mask and region classification\<close>

lemma true_positions_Nil [simp]: "true_positions i [] = {}"
  by (simp add: true_positions_def)

lemma ex_nat_split: "(\<exists>k::nat. P k) = (P 0 \<or> (\<exists>k. P (Suc k)))"
  by (metis not0_implies_Suc)

lemma true_positions_Cons:
  "true_positions i (v # vs) = (if v then {i} else {}) \<union> true_positions (i + 1) vs"
proof (rule set_eqI)
  fix j
  have "j \<in> true_positions i (v # vs) \<longleftrightarrow> (\<exists>k. j = i + int k \<and> k < length (v # vs) \<and> (v # vs) ! k)"
    by (simp add: true_positions_def)
  also have "\<dots> \<longleftrightarrow> (j = i \<and> v) \<or> (\<exists>k. j = i + int (Suc k) \<and> k < length vs \<and> vs ! k)"
    by (subst ex_nat_split) simp
  also have "\<dots> \<longleftrightarrow> (j = i \<and> v) \<or> (\<exists>k. j = i + 1 + int k \<and> k < length vs \<and> vs ! k)"
    by (simp add: algebra_simps)
  also have "\<dots> \<longleftrightarrow> j \<in> (if v then {i} else {}) \<union> true_positions (i + 1) vs"
    by (simp add: true_positions_def)
  finally show "j \<in> true_positions i (v # vs) \<longleftrightarrow> j \<in> (if v then {i} else {}) \<union> true_positions (i + 1) vs" .
qed

lemma covered_append [simp]: "covered (xs @ ys) = covered xs \<union> covered ys"
  by (auto simp: covered_def)

lemma covered_Nil [simp]: "covered [] = {}"
  by (simp add: covered_def)

lemma covered_single [simp]: "covered [(a, b)] = {a..b}"
  by (simp add: covered_def)

lemma mask_scan_cover:
  assumes "mask_scan vs i start rs = (start', rs')" "\<forall>s. start = Some s \<longrightarrow> s \<le> i"
  shows "covered rs' \<union> open_run start' (i + int (length vs))
           = covered rs \<union> open_run start i \<union> true_positions i vs
         \<and> (\<forall>s. start' = Some s \<longrightarrow> s \<le> i + int (length vs))"
  using assms
proof (induction vs arbitrary: i start rs)
  case Nil
  then show ?case by auto
next
  case (Cons v vs)
  show ?case
  proof (cases start)
    case None
    show ?thesis
    proof (cases v)
      case True
      with None Cons.prems have "mask_scan vs (i + 1) (Some i) rs = (start', rs')" by simp
      from Cons.IH[OF this] True None show ?thesis
        by (auto simp: true_positions_Cons open_run_def add.assoc)
    next
      case False
      with None Cons.prems have "mask_scan vs (i + 1) None rs = (start', rs')" by simp
      from Cons.IH[OF this] False None show ?thesis
        by (auto simp: true_positions_Cons open_run_def add.assoc)
    qed
  next
    case (Some s)
    with Cons.prems have le: "s \<le> i" by simp
    show ?thesis
    proof (cases v)
      case True
      with Some Cons.prems have "mask_scan vs (i + 1) (Some s) rs = (start', rs')" by simp
      from Cons.IH[OF this] le have
        "covered rs' \<union> open_run start' (i + 1 + int (length vs))
           = covered rs \<union> open_run (Some s) (i + 1) \<union> true_positions (i + 1) vs"
        and "\<forall>s. start' = Some s \<longrightarrow> s \<le> i + 1 + int (length vs)" by auto
      moreover have "open_run (Some s) (i + 1) = open_run (Some s) i \<union> {i}"
        using le by (auto simp: open_run_def)
      ultimately show ?thesis using True Some
        by (simp add: true_positions_Cons add.assoc Un_ac)
    next
      case False
      with Some Cons.prems have "mask_scan vs (i + 1) None (rs @ [(s, i - 1)]) = (start', rs')" by simp
      from Cons.IH[OF this] have
        "covered rs' \<union> open_run start' (i + 1 + int (length vs))
           = covered (rs @ [(s, i - 1)]) \<union> open_run None (i + 1) \<union> true_positions (i + 1) vs"
        and "\<forall>s. start' = Some s \<longrightarrow> s \<le> i + 1 + int (length vs)" by auto
      then show ?thesis using False Some
        by (simp add: true_positions_Cons add.assoc Un_ac open_run_def)
    qed
  qed
qed

lemma mask_scan_inv:
  assumes "mask_scan vs i start rs = (start', rs')" "scan_inv lo i start rs"
  shows "scan_inv lo (i + int (length vs)) start' rs'"
  using assms
proof (induction vs arbitrary: i start rs)
  case Nil
  then show ?case by simp
next
  case (Cons v vs)
  show ?case
  proof (cases start)
    case None
    show ?thesis
    proof (cases v)
      case True
      with None Cons.prems have run: "mask_scan vs (i + 1) (Some i) rs = (start', rs')" by simp
      have "scan_inv lo (i + 1) (Some i) rs"
        using Cons.prems(2) None by (auto simp: scan_inv_def)
      from Cons.IH[OF run this] show ?thesis by (simp add: add.assoc)
    next
      case False
      with None Cons.prems have run: "mask_scan vs (i + 1) None rs = (start', rs')" by simp
      have "scan_inv lo (i + 1) None rs"
        using Cons.prems(2) None by (fastforce simp: scan_inv_def)
      from Cons.IH[OF run this] show ?thesis by (simp add: add.assoc)
    qed
  next
    case (Some s)
    show ?thesis
    proof (cases v)
      case True
      with Some Cons.prems have run: "mask_scan vs (i + 1) (Some s) rs = (start', rs')" by simp
      have "scan_inv lo (i + 1) (Some s) rs"
        using Cons.prems(2) Some by (auto simp: scan_inv_def)
      from Cons.IH[OF run this] show ?thesis by (simp add: add.assoc)
    next
      case False
      with Some Cons.prems have run: "mask_scan vs (i + 1) None (rs @ [(s, i - 1)]) = (start', rs')" by simp
      have "scan_inv lo (i + 1) None (rs @ [(s, i - 1)])"
        using Cons.prems(2) Some by (fastforce simp: scan_inv_def sorted_wrt_append)
      from Cons.IH[OF run this] show ?thesis by (simp add: add.assoc)
    qed
  qed
qed


lemma close_run_scan:
  assumes "mask_scan m 0 None [] = (start', rs')"
  shows "covered (close_run (length m) (start', rs')) = true_positions 0 m"
    and "sorted_wrt (\<lambda>r r'. snd r < fst r') (close_run (length m) (start', rs'))"
    and "\<forall>(a, b) \<in> set (close_run (length m) (start', rs')). 0 \<le> a \<and> a \<le> b \<and> b \<le> int (length m) - 1"
proof -
  from mask_scan_cover[OF assms] have cov:
    "covered rs' \<union> open_run start' (int (length m)) = true_positions 0 m"
    by (simp add: open_run_def)
  have "scan_inv 0 0 None []" by (simp add: scan_inv_def)
  from mask_scan_inv[OF assms this] have inv: "scan_inv 0 (int (length m)) start' rs'" by simp
  show "covered (close_run (length m) (start', rs')) = true_positions 0 m"
    using cov by (cases start') (simp_all add: close_run_def open_run_def)
  show "sorted_wrt (\<lambda>r r'. snd r < fst r') (close_run (length m) (start', rs'))"
    using inv by (cases start') (auto simp: close_run_def scan_inv_def sorted_wrt_append)
  show "\<forall>(a, b) \<in> set (close_run (length m) (start', rs')). 0 \<le> a \<and> a \<le> b \<and> b \<le> int (length m) - 1"
    using inv by (cases start') (fastforce simp: close_run_def scan_inv_def)+
qed

lemma find_continuous_regions_covered:
  "covered (find_continuous_regions m) = true_positions 0 m"
proof (cases "length m = 0")
  case True
  then show ?thesis by (simp add: find_continuous_regions_def)
next
  case False
  obtain start' rs' where run: "mask_scan m 0 None [] = (start', rs')" by (cases "mask_scan m 0 None []")
  from close_run_scan(1)[OF run] False run show ?thesis by (simp add: find_continuous_regions_def)
qed

lemma find_continuous_regions_sorted:
  "sorted_wrt (\<lambda>r r'. snd r < fst r') (find_continuous_regions m)"
proof (cases "length m = 0")
  case True
  then show ?thesis by (simp add: find_continuous_regions_def)
next
  case False
  obtain start' rs' where run: "mask_scan m 0 None [] = (start', rs')" by (cases "mask_scan m 0 None []")
  from close_run_scan(2)[OF run] False run show ?thesis by (simp add: find_continuous_regions_def)
qed

lemma find_continuous_regions_bounds:
  "(a, b) \<in> set (find_continuous_regions m) \<Longrightarrow> 0 \<le> a \<and> a \<le> b \<and> b \<le> int (length m) - 1"
proof (cases "length m = 0")
  case True
  assume "(a, b) \<in> set (find_continuous_regions m)"
  with True show ?thesis by (simp add: find_continuous_regions_def)
next
  case False
  assume mem: "(a, b) \<in> set (find_continuous_regions m)"
  obtain start' rs' where run: "mask_scan m 0 None [] = (start', rs')" by (cases "mask_scan m 0 None []")
  from close_run_scan(3)[OF run] False run mem show ?thesis
    by (auto simp: find_continuous_regions_def)
qed

lemma true_positions_map:
  "true_positions 0 (map P ds) = {int k | k. k < length ds \<and> P (ds ! k)}"
  by (auto simp: true_positions_def)

lemma covered_mem: "j \<in> covered rs \<longleftrightarrow> (\<exists>a b. (a, b) \<in> set rs \<and> a \<le> j \<and> j \<le> b)"
  by (fastforce simp: covered_def)

lemma interval_in_covered: "(a, b) \<in> set rs \<Longrightarrow> {a..b} \<subseteq> covered rs"
  by (auto simp: covered_def)

lemma disjoint_covered_non_overlapping:
  assumes "covered xs \<inter> covered ys = {}" "r \<in> set xs" "r' \<in> set ys"
    "fst r \<le> snd r" "fst r' \<le> snd r'"
  shows "non_overlapping r r'"
proof (rule ccontr)
  assume "\<not> non_overlapping r r'"
  then have "fst r' \<le> snd r" "fst r \<le> snd r'" by (simp_all add: non_overlapping_def)
  then have "max (fst r) (fst r') \<in> {fst r..snd r} \<inter> {fst r'..snd r'}"
    using assms(4,5) by auto
  moreover have "{fst r..snd r} \<subseteq> covered xs" using interval_in_covered[of "fst r" "snd r" xs] assms(2) by simp
  moreover have "{fst r'..snd r'} \<subseteq> covered ys" using interval_in_covered[of "fst r'" "snd r'" ys] assms(3) by simp
  ultimately show False using assms(1) by blast
qed

lemma sorted_before_non_overlapping:
  "sorted_wrt (\<lambda>r r'. snd r < fst r') rs \<Longrightarrow> sorted_wrt non_overlapping rs"
  by (erule sorted_wrt_mono_rel[rotated]) (simp add: non_overlapping_def)

lemma three_masks_partition:
  fixes T :: int
  assumes "1 \<le> T"
  defines "Z \<equiv> \<lambda>ds. true_positions 0 (map (\<lambda>d::nat. d = 0) ds)"
    and "L \<equiv> \<lambda>ds. true_positions 0 (map (\<lambda>d::nat. d > 0 \<and> int d < T) ds)"
    and "N \<equiv> \<lambda>ds. true_positions 0 (map (\<lambda>d::nat. int d \<ge> T) ds)"
  shows "Z ds \<inter> L ds = {}" "Z ds \<inter> N ds = {}" "L ds \<inter> N ds = {}"
    "Z ds \<union> L ds \<union> N ds = {0..int (length ds) - 1}"
proof -
  show "Z ds \<inter> L ds = {}" unfolding Z_def L_def true_positions_map by auto
  show "Z ds \<inter> N ds = {}" unfolding Z_def N_def true_positions_map using assms(1) by auto
  show "L ds \<inter> N ds = {}" unfolding L_def N_def true_positions_map by auto
  show "Z ds \<union> L ds \<union> N ds = {0..int (length ds) - 1}"
  proof (rule set_eqI)
    fix j
    show "j \<in> Z ds \<union> L ds \<union> N ds \<longleftrightarrow> j \<in> {0..int (length ds) - 1}"
    proof
      assume "j \<in> Z ds \<union> L ds \<union> N ds"
      then show "j \<in> {0..int (length ds) - 1}"
        unfolding Z_def L_def N_def true_positions_map by auto
    next
      assume "j \<in> {0..int (length ds) - 1}"
      then have k: "nat j < length ds" "j = int (nat j)" by auto
      have "ds ! nat j = 0 \<or> (ds ! nat j > 0 \<and> int (ds ! nat j) < T) \<or> int (ds ! nat j) \<ge> T"
        by linarith
      then show "j \<in> Z ds \<union> L ds \<union> N ds"
        unfolding Z_def L_def N_def true_positions_map using k by blast
    qed
  qed
qed

text \<open>
  Claim C4, for a threshold of at least 1. For a non-empty combined depth array and a
  threshold \<open>T \<ge> 1\<close>, the zero, low and normal region lists are closed intervals
  inside \<open>[0, N - 1]\<close>, no two of them share an index, together they cover exactly
  \<open>[0, N - 1]\<close>, each list covers exactly the positions of its class, and some interval
  ends at \<open>N - 1\<close>: a run that reaches the last index is closed there.
\<close>

theorem regions_partition:
  assumes "combined_depths hifi ont = Inr ds" "ds \<noteq> []" "1 \<le> T"
  shows "\<exists>r. analyze_depth_regions T hifi ont = Inr r \<and> region_partition (length ds) r
           \<and> covered (zero_depth r) = {int k | k. k < length ds \<and> ds ! k = 0}
           \<and> covered (low_depth r) = {int k | k. k < length ds \<and> 0 < ds ! k \<and> int (ds ! k) < T}
           \<and> covered (normal_depth r) = {int k | k. k < length ds \<and> T \<le> int (ds ! k)}
           \<and> (\<exists>a. (a, int (length ds) - 1) \<in> set (zero_depth r @ low_depth r @ normal_depth r))"
proof -
  define z where "z = find_continuous_regions (map (\<lambda>d. d = 0) ds)"
  define l where "l = find_continuous_regions (map (\<lambda>d. d > 0 \<and> int d < T) ds)"
  define n where "n = find_continuous_regions (map (\<lambda>d. int d \<ge> T) ds)"
  define r where "r = \<lparr>zero_depth = z, low_depth = l, normal_depth = n\<rparr>"
  have res: "analyze_depth_regions T hifi ont = Inr r"
    using assms(1) by (simp add: analyze_depth_regions_def r_def z_def l_def n_def)
  have cz: "covered z = true_positions 0 (map (\<lambda>d. d = 0) ds)"
    and cl: "covered l = true_positions 0 (map (\<lambda>d. d > 0 \<and> int d < T) ds)"
    and cn: "covered n = true_positions 0 (map (\<lambda>d. int d \<ge> T) ds)"
    by (simp_all add: z_def l_def n_def find_continuous_regions_covered)
  note part = three_masks_partition[OF assms(3), of ds]
  have bz: "\<And>a b. (a, b) \<in> set z \<Longrightarrow> 0 \<le> a \<and> a \<le> b \<and> b \<le> int (length ds) - 1"
    and bl: "\<And>a b. (a, b) \<in> set l \<Longrightarrow> 0 \<le> a \<and> a \<le> b \<and> b \<le> int (length ds) - 1"
    and bn: "\<And>a b. (a, b) \<in> set n \<Longrightarrow> 0 \<le> a \<and> a \<le> b \<and> b \<le> int (length ds) - 1"
    using find_continuous_regions_bounds[of _ _ "map f ds" for f] by (simp_all add: z_def l_def n_def)
  have bounds: "\<forall>(a, b) \<in> set (z @ l @ n). 0 \<le> a \<and> a \<le> b \<and> b \<le> int (length ds) - 1"
    using bz bl bn by auto
  have sz: "sorted_wrt non_overlapping z" and sl: "sorted_wrt non_overlapping l"
    and sn: "sorted_wrt non_overlapping n"
    by (simp_all add: z_def l_def n_def sorted_before_non_overlapping find_continuous_regions_sorted)
  have zl: "\<forall>x \<in> set z. \<forall>y \<in> set l. non_overlapping x y"
    using disjoint_covered_non_overlapping[of z l] part(1) cz cl bz bl by fastforce
  have zn: "\<forall>x \<in> set z. \<forall>y \<in> set n. non_overlapping x y"
    using disjoint_covered_non_overlapping[of z n] part(2) cz cn bz bn by fastforce
  have ln: "\<forall>x \<in> set l. \<forall>y \<in> set n. non_overlapping x y"
    using disjoint_covered_non_overlapping[of l n] part(3) cl cn bl bn by fastforce
  have sorted: "sorted_wrt non_overlapping (z @ l @ n)"
    using sz sl sn zl zn ln by (auto simp: sorted_wrt_append)
  have cov: "covered (z @ l @ n) = {0..int (length ds) - 1}"
    using part(4) cz cl cn by (simp add: Un_assoc)
  have "int (length ds) - 1 \<in> covered (z @ l @ n)"
    using cov assms(2) by simp
  then obtain a b where ab: "(a, b) \<in> set (z @ l @ n)" "int (length ds) - 1 \<le> b"
    unfolding covered_mem by blast
  with bounds have "b = int (length ds) - 1" by fastforce
  with ab have last: "\<exists>a. (a, int (length ds) - 1) \<in> set (z @ l @ n)" by blast
  have classes: "covered z = {int k | k. k < length ds \<and> ds ! k = 0}"
    "covered l = {int k | k. k < length ds \<and> 0 < ds ! k \<and> int (ds ! k) < T}"
    "covered n = {int k | k. k < length ds \<and> T \<le> int (ds ! k)}"
    by (simp_all add: cz cl cn true_positions_map)
  show ?thesis
    using res bounds sorted cov last classes by (simp add: region_partition_def r_def)
qed

theorem regions_partition_witness:
  "combined_depths [0, 0, 3, 7] [] = Inr [0, 0, 3, 7] \<and> [0, 0, 3, 7] \<noteq> ([] :: nat list)
   \<and> (1 :: int) \<le> 5
   \<and> analyze_depth_regions 5 [0, 0, 3, 7] []
       = Inr \<lparr>zero_depth = [(0, 1)], low_depth = [(2, 2)], normal_depth = [(3, 3)]\<rparr>
   \<and> region_partition (length [0, 0, 3, 7 :: nat])
        \<lparr>zero_depth = [(0, 1)], low_depth = [(2, 2)], normal_depth = [(3, 3)]\<rparr>"
proof -
  have c: "combined_depths [0, 0, 3, 7] [] = Inr [0, 0, 3, 7]"
    by (simp add: combined_depths_def)
  have a: "analyze_depth_regions 5 [0, 0, 3, 7] []
       = Inr \<lparr>zero_depth = [(0, 1)], low_depth = [(2, 2)], normal_depth = [(3, 3)]\<rparr>"
    by (simp add: analyze_depth_regions_def combined_depths_def find_continuous_regions_def
          close_run_def)
  from regions_partition[OF c, of 5] a c show ?thesis by auto
qed

text \<open>
  Claim C4 as stated, for every threshold: with threshold 0 the single position of the
  array \<open>[0]\<close> is a zero region and a normal region at once, so the lists overlap.
\<close>

theorem zero_threshold_regions_overlap:
  "analyze_depth_regions 0 [0] []
     = Inr \<lparr>zero_depth = [(0, 0)], low_depth = [], normal_depth = [(0, 0)]\<rparr>
   \<and> \<not> region_partition 1 \<lparr>zero_depth = [(0, 0)], low_depth = [], normal_depth = [(0, 0)]\<rparr>"
  by (simp add: analyze_depth_regions_def combined_depths_def find_continuous_regions_def
        close_run_def region_partition_def non_overlapping_def)

subsection \<open>Windowing\<close>

text \<open>
  Claim C3. The array \<open>[0,0,3,4,5,0,0,20,20,0]\<close> with threshold 5 has the zero regions
  \<open>(0,1)\<close>, \<open>(5,6)\<close>, \<open>(9,9)\<close>, the low region \<open>(2,3)\<close> and the normal regions \<open>(4,4)\<close>,
  \<open>(7,8)\<close>; with window size 2 its windows are \<open>[2,3]\<close> with mean 3.5, \<open>[4,4]\<close> with
  mean 5 and \<open>[7,8]\<close> with mean 20.
\<close>

theorem end_to_end_example:
  "analyze_depth_regions 5 [0, 0, 3, 4, 5, 0, 0, 20, 20, 0] []
     = Inr \<lparr>zero_depth = [(0, 1), (5, 6), (9, 9)], low_depth = [(2, 3)],
            normal_depth = [(4, 4), (7, 8)]\<rparr>
   \<and> calculate_windowed_stats 2 [0, 0, 3, 4, 5, 0, 0, 20, 20, 0]
       = Inr ([7 / 2, 5, 20], [2, 4, 7], [3, 4, 8])"
proof
  show "analyze_depth_regions 5 [0, 0, 3, 4, 5, 0, 0, 20, 20, 0] []
     = Inr \<lparr>zero_depth = [(0, 1), (5, 6), (9, 9)], low_depth = [(2, 3)],
            normal_depth = [(4, 4), (7, 8)]\<rparr>"
    by (simp add: analyze_depth_regions_def combined_depths_def find_continuous_regions_def
          close_run_def)
  show "calculate_windowed_stats 2 [0, 0, 3, 4, 5, 0, 0, 20, 20, 0]
       = Inr ([7 / 2, 5, 20], [2, 4, 7], [3, 4, 8])"
    by (simp add: calculate_windowed_stats_def find_non_zero_segments_def close_run_def
          segment_windows_def py_slice_def slice_bound_def window_at_def mean_def Let_def
          upto.simps)
qed



subsection \<open>Plotting one sequence\<close>

text \<open>
  Claim C7. When both depth arrays are non-empty and their lengths differ,
  \<^verbatim>\<open>plot_single_sequence\<close> raises the error that carries the sequence ID and the two
  lengths, and the trace of effects is empty: no figure was created, nothing was
  written.
\<close>

theorem length_mismatch_raises_first:
  assumes "h \<noteq> []" "n \<noteq> []" "length h \<noteq> length n"
  shows "plot_single_sequence self seq_id (Some h) (Some n) W rgs out_dir T
           = ([], Inl (LengthMismatch seq_id (length h) (length n)))"
  using assms by (simp add: plot_single_sequence_def)

theorem length_mismatch_raises_first_witness:
  "[1, 2] \<noteq> ([] :: nat list) \<and> [7] \<noteq> ([] :: nat list) \<and> length [1, 2 :: nat] \<noteq> length [7 :: nat]
   \<and> plot_single_sequence \<lparr>output_format = ''pdf'', output_dir = ''images'', max_depth_ratio = 3\<rparr>
        ''chr1'' (Some [1, 2]) (Some [7]) 1000 None None 5
       = ([], Inl (LengthMismatch ''chr1'' 2 1))"
  using length_mismatch_raises_first[of "[1, 2]" "[7]"
          "\<lparr>output_format = ''pdf'', output_dir = ''images'', max_depth_ratio = 3\<rparr>"
          "''chr1''" 1000 None None 5]
  by simp

subsection \<open>Placement of the scale bar\<close>

lemma acceptable_none:
  "bbox (inner (gen r)) = Inr None \<Longrightarrow> acceptable gen bbox args lay r"
  by (simp add: acceptable_def scale_bbox_abs_def)

lemma acceptable_some:
  "bbox (inner (gen r)) = Inr (Some (sx, sy, sw, sh)) \<Longrightarrow>
     acceptable gen bbox args lay r
       = (\<not> hit_depth args lay (sx, sy + middle_y lay, sx + sw, sy + sh + middle_y lay))"
  by (simp add: acceptable_def scale_bbox_abs_def)

lemma try_ratios_find:
  assumes "\<forall>r \<in> set rs. \<forall>e. bbox (inner (gen r)) \<noteq> Inl e"
  shows "try_ratios gen bbox args lay rs kept =
           Inr (case find (acceptable gen bbox args lay) rs of Some r \<Rightarrow> gen r | None \<Rightarrow> kept)"
  using assms
proof (induction rs)
  case Nil
  show ?case by simp
next
  case (Cons r rs)
  then have ok: "\<forall>e. bbox (inner (gen r)) \<noteq> Inl e" by simp
  then obtain ob where ob: "bbox (inner (gen r)) = Inr ob" by (cases "bbox (inner (gen r))") auto
  from Cons have IH: "try_ratios gen bbox args lay rs kept =
           Inr (case find (acceptable gen bbox args lay) rs of Some r \<Rightarrow> gen r | None \<Rightarrow> kept)" by simp
  show ?case
  proof (cases ob)
    case None
    with ob have "bbox (inner (gen r)) = Inr None" by simp
    then show ?thesis
      using acceptable_none[where bbox=bbox and gen=gen and r=r and args=args and lay=lay]
      by (simp add: scale_bbox_abs_def)
  next
    case (Some box)
    obtain sx sy sw sh where box: "box = (sx, sy, sw, sh)" by (cases box) auto
    with ob Some have eq: "bbox (inner (gen r)) = Inr (Some (sx, sy, sw, sh))" by simp
    then show ?thesis
      using IH acceptable_some[where bbox=bbox and gen=gen and r=r and args=args and lay=lay]
      by (simp add: scale_bbox_abs_def)
  qed
qed


text \<open>
  The other branch: the default position is clear of the panels, yet the box found in
  the first render overlaps one. The candidates are the three constants, and the first
  render is kept when none of them is accepted.
\<close>

lemma place_scale_bar_relocate:
  assumes "\<not> default_hits_depth args lay"
    "bbox (inner first) = Inr (Some (sx, sy, sw, sh))"
    "hit_depth args lay (sx, sy + middle_y lay, sx + sw, sy + sh + middle_y lay)"
    "\<forall>r \<in> set [42 / 100, 12 / 100, 95 / 100]. \<forall>e. bbox (inner (gen r)) \<noteq> Inl e"
  shows "place_scale_bar gen bbox args lay first =
           Inr (case find (acceptable gen bbox args lay) [42 / 100, 12 / 100, 95 / 100] of
                  Some r \<Rightarrow> gen r
                | None \<Rightarrow> first)"
  using assms(1,2,3) try_ratios_find[OF assms(4), of args lay first]
  by (simp add: place_scale_bar_def scale_bbox_abs_def)














subsection \<open>Bars of a combined panel\<close>

lemma mean_nonneg: "0 \<le> mean xs"
  by (simp add: mean_def)

lemma window_at_nonneg: "w \<in> set (window_at W s0 seg i) \<Longrightarrow> 0 \<le> fst w"
  by (auto simp: window_at_def Let_def mean_nonneg split: if_splits)

lemma segment_windows_nonneg:
  assumes "segment_windows W ds seg = Inr ws" "w \<in> set ws"
  shows "0 \<le> fst w"
proof -
  obtain a b where seg: "seg = (a, b)" by (cases seg)
  from assms obtain i where "w \<in> set (window_at W a (py_slice ds a (b + 1)) i)"
    unfolding seg segment_windows_def Let_def by (auto split: if_splits)
  then show ?thesis by (rule window_at_nonneg)
qed

lemma windows_loop_nonneg:
  assumes "windows_loop W ds segs acc = Inr ws" "\<forall>w \<in> set acc. 0 \<le> fst w"
  shows "\<forall>w \<in> set ws. 0 \<le> fst w"
  using assms
proof (induction segs arbitrary: acc)
  case Nil
  then show ?case by simp
next
  case (Cons seg segs)
  from Cons.prems(1) obtain ws' where sw: "segment_windows W ds seg = Inr ws'"
    and run: "windows_loop W ds segs (acc @ ws') = Inr ws"
    by (auto split: sum.splits)
  have "\<forall>w \<in> set (acc @ ws'). 0 \<le> fst w"
    using Cons.prems(2) segment_windows_nonneg[OF sw] by auto
  from Cons.IH[OF run this] show ?case .
qed

lemma mask_scan_all_false:
  "\<forall>v \<in> set vs. \<not> v \<Longrightarrow> mask_scan vs i None rs = (None, rs)"
  by (induction vs arbitrary: i) auto

lemma no_segments_when_all_zero:
  assumes "\<forall>v \<in> set vs. v = (0::nat)"
  shows "find_non_zero_segments vs (map (\<lambda>d. d = 0) vs) = []"
proof -
  have "\<forall>v \<in> set (map Not (map (\<lambda>d. d = 0) vs)). \<not> v" using assms by simp
  from mask_scan_all_false[OF this] show ?thesis
    by (simp add: find_non_zero_segments_def close_run_def)
qed

lemma stats_shape:
  assumes "calculate_windowed_stats W vs = Inr (ms, ss, es)"
  shows "\<exists>ws. ms = map fst ws \<and> ss = map (fst \<circ> snd) ws \<and> es = map (snd \<circ> snd) ws
              \<and> (\<forall>w \<in> set ws. 0 \<le> fst w) \<and> (ws \<noteq> [] \<longrightarrow> (\<exists>v \<in> set vs. v > 0))"
proof (cases "length vs = 0")
  case True
  with assms show ?thesis by (simp add: calculate_windowed_stats_def)
next
  case False
  with assms obtain ws where run:
      "windows_loop W vs (find_non_zero_segments vs (map (\<lambda>d. d = 0) vs)) [] = Inr ws"
    and eq: "ms = map fst ws" "ss = map (fst \<circ> snd) ws" "es = map (snd \<circ> snd) ws"
    by (auto simp: calculate_windowed_stats_def split: sum.splits)
  have nn: "\<forall>w \<in> set ws. 0 \<le> fst w" using windows_loop_nonneg[OF run] by simp
  have "ws \<noteq> [] \<longrightarrow> (\<exists>v \<in> set vs. v > 0)"
  proof (rule impI, rule ccontr)
    assume ne: "ws \<noteq> []" and "\<not> (\<exists>v \<in> set vs. v > 0)"
    then have "\<forall>v \<in> set vs. v = 0" by simp
    from no_segments_when_all_zero[OF this] run have "ws = []" by simp
    with ne show False by simp
  qed
  with eq nn show ?thesis by blast
qed

lemma zip_triples: "zip (map fst ws) (zip (map (fst \<circ> snd) ws) (map (snd \<circ> snd) ws)) = ws"
  by (induction ws) auto

lemma nonzero_mean_nonneg: "0 \<le> nonzero_mean vs"
  by (simp add: nonzero_mean_def Let_def)

lemma sum_list_pos_nat: "xs \<noteq> [] \<Longrightarrow> \<forall>x \<in> set xs. 0 < (x::nat) \<Longrightarrow> 0 < sum_list xs"
  by (induction xs) auto

lemma nonzero_mean_pos:
  assumes "\<exists>v \<in> set vs. v > 0"
  shows "0 < nonzero_mean vs"
proof -
  have ne: "filter (\<lambda>v. v > 0) vs \<noteq> []" using assms by (auto simp: filter_empty_conv)
  then have "0 < sum_list (filter (\<lambda>v. v > 0) vs)" by (intro sum_list_pos_nat) auto
  with ne show ?thesis by (simp add: nonzero_mean_def Let_def)
qed

lemma dataset_cap_spec: "dataset_cap mr vs = spec_cap mr vs"
  using nonzero_mean_nonneg[of vs] by (auto simp: dataset_cap_def spec_cap_def)





lemma global_cap_spec:
  assumes "0 < mr" "(\<exists>v \<in> set h. v > 0) \<or> (\<exists>v \<in> set n. v > 0)"
  shows "global_cap mr h n = spec_shared_cap mr h n"
proof -
  have "0 < nonzero_mean h \<or> 0 < nonzero_mean n" using assms(2) nonzero_mean_pos by blast
  then have "0 < spec_cap mr h \<or> 0 < spec_cap mr n" using assms(1) by (auto simp: spec_cap_def)
  then have "0 < max (spec_cap mr h) (spec_cap mr n)" by auto
  then have "\<not> max (spec_cap mr h) (spec_cap mr n) \<le> 0" by linarith
  then show ?thesis
    unfolding global_cap_def dataset_cap_spec spec_shared_cap_def Let_def by (simp only: if_False)
qed

lemma own_cap_spec:
  assumes "0 < mr" "\<exists>v \<in> set vs. v > 0"
  shows "own_cap mr vs g = spec_cap mr vs"
proof -
  have "0 < spec_cap mr vs" using assms nonzero_mean_pos[of vs] by (simp add: spec_cap_def)
  then show ?thesis by (simp add: own_cap_def dataset_cap_spec)
qed

lemma rect_heights_append [simp]: "rect_heights (xs @ ys) = rect_heights xs @ rect_heights ys"
  by (induction xs rule: rect_heights.induct) auto

lemma rect_heights_mean_line [simp]: "rect_heights (mean_line up xl xr base dh cap g ms) = []"
  by (simp add: mean_line_def Let_def)

lemma rect_heights_bars:
  "rect_heights (map (bar_rect up xl sp sl base dh cap g) ws) = map (\<lambda>w. dh * (min (fst w) cap / g)) ws"
  by (induction ws) (auto simp: bar_rect_def Let_def)

lemma half_panel_heights:
  assumes "half_panel up args vs sl xl xr base cap g = Inr (bg, bars)"
    "calculate_windowed_stats (args_window_size args) vs = Inr (ms, ss, es)"
  shows "rect_heights bars = map (\<lambda>m. args_depth_height args * (min m cap / g)) ms"
proof (cases "length vs > 0")
  case False
  with assms show ?thesis by (simp add: half_panel_def calculate_windowed_stats_def)
next
  case True
  from stats_shape[OF assms(2)] obtain ws where
    ws: "ms = map fst ws" "ss = map (fst \<circ> snd) ws" "es = map (snd \<circ> snd) ws" by blast
  from assms True have "bars = map (bar_rect up xl (xr - xl) sl base (args_depth_height args) cap g)
                                  (zip ms (zip ss es))
                               @ mean_line up xl xr base (args_depth_height args) cap g ms"
    by (auto simp: half_panel_def Let_def)
  then show ?thesis unfolding ws zip_triples by (simp add: rect_heights_bars o_def)
qed


lemma half_panel_ok:
  assumes "calculate_windowed_stats (args_window_size args) vs = Inr st"
  shows "\<exists>bg bars. half_panel up args vs sl xl xr base cap g = Inr (bg, bars)"
proof -
  obtain ms ss es where "st = (ms, ss, es)" by (cases st) auto
  with assms show ?thesis by (simp add: half_panel_def Let_def)
qed

lemma spec_heights:
  assumes "0 < mr" "calculate_windowed_stats W own = Inr (ms, ss, es)"
    "own = a \<or> own = b"
  shows "map (\<lambda>m. dh * (min m (own_cap mr own (global_cap mr a b)) / global_cap mr a b)) ms
           = map (spec_bar_height dh mr own a b) ms"
proof (cases "ms = []")
  case True
  then show ?thesis by simp
next
  case False
  from stats_shape[OF assms(2)] False have pos: "\<exists>v \<in> set own. v > 0" by auto
  then have "(\<exists>v \<in> set a. v > 0) \<or> (\<exists>v \<in> set b. v > 0)" using assms(3) by auto
  from global_cap_spec[OF assms(1) this] own_cap_spec[OF assms(1) pos]
  show ?thesis by (simp add: spec_bar_height_def)
qed

lemma ex_stats_2: "calculate_windowed_stats (args_window_size ex_args) [2] = Inr ([2], [0], [0])"
  by (simp add: ex_args_def calculate_windowed_stats_def find_non_zero_segments_def close_run_def
        segment_windows_def py_slice_def slice_bound_def window_at_def mean_def Let_def upto.simps)

lemma ex_stats_4: "calculate_windowed_stats (args_window_size ex_args) [4] = Inr ([4], [0], [0])"
  by (simp add: ex_args_def calculate_windowed_stats_def find_non_zero_segments_def close_run_def
        segment_windows_def py_slice_def slice_bound_def window_at_def mean_def Let_def upto.simps)

lemmas bars_eval = build_bars_for_seq_def half_panel_def global_cap_def own_cap_def
  dataset_cap_def nonzero_mean_def region_rects_def dp_analyze_depth_regions_def
  mask_to_regions_def close_run_def bar_rect_def mean_line_def Let_def


lemma ex_build_neg:
  "build_bars_for_seq ex_args_neg (Some [2]) (Some [4]) 100 900 40
     = Inr ([],
            [Rect (- 300) 40 800 160 ''depth-top'', Line 100 40 900 40 ''mean''],
            [Rect (- 300) 200 800 160 ''depth-bottom'', Line 100 360 900 360 ''mean''],
            200)"
proof -
  have "args_window_size ex_args_neg = args_window_size ex_args"
    by (simp add: ex_args_neg_def)
  with ex_stats_2 ex_stats_4 show ?thesis
    by (simp add: bars_eval) (simp add: ex_args_neg_def ex_args_def)
qed

text \<open>
  Claim C6, for a positive ratio. When \<^verbatim>\<open>max_depth_ratio\<close> is positive, one of the
  arrays is not empty and the window statistics of both are computed (the window size
  is not 0), the panel is built and the heights of the HiFi bars are, window by
  window, the panel height times the window mean clamped to the cap of the HiFi array
  over the shared cap, and the heights of the ONT bars the same with the cap of the ONT
  array; the shared cap is the larger of the two caps, each the non-zero mean times
  the ratio.
\<close>

theorem bar_heights_shared_cap:
  assumes "0 < args_max_depth_ratio args"
    "calculate_windowed_stats (args_window_size args) a = Inr (ma, sa, ea)"
    "calculate_windowed_stats (args_window_size args) b = Inr (mb, sb, eb)"
    "a \<noteq> [] \<or> b \<noteq> []"
  shows "\<exists>bg bars_top bars_bottom.
           build_bars_for_seq args (Some a) (Some b) xl xr oy
             = Inr (bg, bars_top, bars_bottom, oy + args_depth_height args)
           \<and> rect_heights bars_top
               = map (spec_bar_height (args_depth_height args) (args_max_depth_ratio args) a a b) ma
           \<and> rect_heights bars_bottom
               = map (spec_bar_height (args_depth_height args) (args_max_depth_ratio args) b a b) mb"
proof -
  define mr where "mr = args_max_depth_ratio args"
  define dh where "dh = args_depth_height args"
  define g where "g = global_cap mr a b"
  define sl where "sl = int (max (length a) (length b))"
  define base where "base = oy + dh"
  obtain bg_h bars_top where hp: "half_panel True args a sl xl xr base (own_cap mr a g) g = Inr (bg_h, bars_top)"
    using half_panel_ok[OF assms(2)] by blast
  obtain bg_n bars_bottom where np: "half_panel False args b sl xl xr base (own_cap mr b g) g = Inr (bg_n, bars_bottom)"
    using half_panel_ok[OF assms(3)] by blast
  have "sl \<noteq> 0" using assms(4) by (auto simp: sl_def)
  then have res: "build_bars_for_seq args (Some a) (Some b) xl xr oy = Inr (bg_h @ bg_n, bars_top, bars_bottom, base)"
    using hp np unfolding build_bars_for_seq_def Let_def
    by (simp add: sl_def[symmetric] mr_def[symmetric] dh_def[symmetric] g_def[symmetric] base_def[symmetric])
  have "rect_heights bars_top = map (\<lambda>m. dh * (min m (own_cap mr a g) / g)) ma"
    using half_panel_heights[OF hp assms(2)] by (simp add: dh_def)
  also have "\<dots> = map (spec_bar_height dh mr a a b) ma"
    unfolding g_def using spec_heights[OF _ assms(2), of mr a b dh] assms(1) by (simp add: mr_def)
  finally have tp: "rect_heights bars_top = map (spec_bar_height dh mr a a b) ma" .
  have "rect_heights bars_bottom = map (\<lambda>m. dh * (min m (own_cap mr b g) / g)) mb"
    using half_panel_heights[OF np assms(3)] by (simp add: dh_def)
  also have "\<dots> = map (spec_bar_height dh mr b a b) mb"
    unfolding g_def using spec_heights[OF _ assms(3), of mr a b dh] assms(1) by (simp add: mr_def)
  finally have bt: "rect_heights bars_bottom = map (spec_bar_height dh mr b a b) mb" .
  from res tp bt show ?thesis by (auto simp: base_def dh_def mr_def)
qed

theorem bar_heights_shared_cap_witness:
  "0 < args_max_depth_ratio ex_args
   \<and> calculate_windowed_stats (args_window_size ex_args) [2] = Inr ([2], [0], [0])
   \<and> calculate_windowed_stats (args_window_size ex_args) [4] = Inr ([4], [0], [0])
   \<and> (\<exists>bg bars_top bars_bottom.
         build_bars_for_seq ex_args (Some [2]) (Some [4]) 100 900 40
           = Inr (bg, bars_top, bars_bottom, 40 + args_depth_height ex_args)
         \<and> rect_heights bars_top
             = map (spec_bar_height (args_depth_height ex_args) (args_max_depth_ratio ex_args)
                      [2] [2] [4]) [2]
         \<and> rect_heights bars_bottom
             = map (spec_bar_height (args_depth_height ex_args) (args_max_depth_ratio ex_args)
                      [4] [2] [4]) [4])
   \<and> map (spec_bar_height (args_depth_height ex_args) (args_max_depth_ratio ex_args)
            [2] [2] [4]) [2] = [80 / 3]
   \<and> map (spec_bar_height (args_depth_height ex_args) (args_max_depth_ratio ex_args)
            [4] [2] [4]) [4] = [160 / 3]"
proof -
  have r: "0 < args_max_depth_ratio ex_args" by (simp add: ex_args_def)
  have ne: "[2] \<noteq> ([] :: nat list) \<or> [4] \<noteq> ([] :: nat list)" by simp
  have v: "map (spec_bar_height (args_depth_height ex_args) (args_max_depth_ratio ex_args)
            [2] [2] [4]) [2] = [80 / 3]"
    "map (spec_bar_height (args_depth_height ex_args) (args_max_depth_ratio ex_args)
            [4] [2] [4]) [4] = [160 / 3]"
    by (simp_all add: spec_bar_height_def spec_shared_cap_def spec_cap_def nonzero_mean_def
          ex_args_def)
  from bar_heights_shared_cap[OF r ex_stats_2 ex_stats_4 ne, of 100 900 40] r ex_stats_2 ex_stats_4 v
  show ?thesis by blast
qed

text \<open>
  Claim C6 as stated, for every ratio: with the ratio \<open>-1\<close>, HiFi array \<open>[2]\<close> and ONT
  array \<open>[4]\<close>, the ONT bar of the one window with mean 4 has height 160, the panel
  height: both caps are negative, so the code divides by 1 and clamps to 1. The claim
  gives \<open>160 * (min 4 (-4) / max (-2) (-4)) = 320\<close>.
\<close>

theorem negative_ratio_bar_height:
  "calculate_windowed_stats (args_window_size ex_args_neg) [4] = Inr ([4], [0], [0])
   \<and> build_bars_for_seq ex_args_neg (Some [2]) (Some [4]) 100 900 40
       = Inr ([],
              [Rect (- 300) 40 800 160 ''depth-top'', Line 100 40 900 40 ''mean''],
              [Rect (- 300) 200 800 160 ''depth-bottom'', Line 100 360 900 360 ''mean''],
              200)
   \<and> rect_heights [Rect (- 300) 200 800 160 ''depth-bottom'', Line 100 360 900 360 ''mean'']
       = [160]
   \<and> map (spec_bar_height (args_depth_height ex_args_neg) (args_max_depth_ratio ex_args_neg)
            [4] [2] [4]) [4] = [320]"
proof -
  have "calculate_windowed_stats (args_window_size ex_args_neg) [4] = Inr ([4], [0], [0])"
    using ex_stats_4 by (simp add: ex_args_neg_def)
  moreover have "map (spec_bar_height (args_depth_height ex_args_neg)
                        (args_max_depth_ratio ex_args_neg) [4] [2] [4]) [4] = [320]"
    by (simp add: spec_bar_height_def spec_shared_cap_def spec_cap_def nonzero_mean_def
          ex_args_neg_def ex_args_def)
  ultimately show ?thesis by (simp add: ex_build_neg)
qed








end
